theory Spec2Isabelle
  imports Complex_Main
begin

section \<open>Single-precision floating point\<close>

text \<open>
  The library computes with C \<^verbatim>\<open>float\<close>, IEEE-754 binary32, every operation rounded to
  nearest with ties to even and no wider intermediate precision. A value is a NaN, an
  infinity with its sign, or a finite number given by its sign and its magnitude; the sign
  flag is \<open>True\<close> for negative, so \<open>Fin True 0\<close> is the negative zero. The magnitude is a
  real number: the type is a superset of binary32, and \<open>is_f32\<close> says which values are
  binary32 numbers. Every operation rounds its exact result with \<open>rnd\<close>.
\<close>

datatype f32 = NaN | Infty bool | Fin bool real

fun isnan :: "f32 \<Rightarrow> bool" where
  "isnan NaN = True"
| "isnan _ = False"

fun isfinite :: "f32 \<Rightarrow> bool" where
  "isfinite (Fin _ _) = True"
| "isfinite _ = False"

fun valof :: "f32 \<Rightarrow> real" where
  "valof (Fin s m) = (if s then - m else m)"
| "valof _ = 0"

text \<open>
  \<open>expo_up k e p m\<close> walks upwards from the exponent \<open>e\<close>, whose power of two is \<open>p\<close>,
  while the next power of two is still below \<open>m\<close>, at most \<open>k\<close> times. From the smallest
  normal exponent \<open>-126\<close> it reaches at most \<open>127\<close>; a subnormal magnitude stays at \<open>-126\<close>.
\<close>

fun expo_up :: "nat \<Rightarrow> int \<Rightarrow> real \<Rightarrow> real \<Rightarrow> int" where
  "expo_up 0 e p m = e"
| "expo_up (Suc k) e p m = (if 2 * p \<le> m then expo_up k (e + 1) (2 * p) m else e)"

definition expo :: "real \<Rightarrow> int" where
  "expo m = expo_up 253 (- 126) (2 powi (- 126)) m"

definition round_even :: "real \<Rightarrow> int" where
  "round_even q = (let f = \<lfloor>q\<rfloor>; r = q - of_int f in
     if r < 1 / 2 then f else if 1 / 2 < r then f + 1 else if even f then f else f + 1)"

text \<open>
  Rounding a magnitude \<open>m \<ge> 0\<close> with sign \<open>s\<close>: the nearest multiple of the unit in the last
  place of \<open>m\<close>'s binade (24 significant bits), ties to even; a result of \<open>2 ^ 128\<close> or more
  is an overflow to the infinity of that sign.
\<close>

definition rnd :: "bool \<Rightarrow> real \<Rightarrow> f32" where
  "rnd s m = (let u = 2 powi (expo m - 23); y = of_int (round_even (m / u)) * u
              in if 2 ^ 128 \<le> y then Infty s else Fin s y)"

definition is_f32 :: "f32 \<Rightarrow> bool" where
  "is_f32 x = (case x of Fin s m \<Rightarrow> 0 \<le> m \<and> rnd s m = Fin s m | _ \<Rightarrow> True)"

fun fneg :: "f32 \<Rightarrow> f32" where
  "fneg NaN = NaN"
| "fneg (Infty s) = Infty (\<not> s)"
| "fneg (Fin s m) = Fin (\<not> s) m"

fun fabsf :: "f32 \<Rightarrow> f32" where
  "fabsf NaN = NaN"
| "fabsf (Infty s) = Infty False"
| "fabsf (Fin s m) = Fin False m"

fun fadd :: "f32 \<Rightarrow> f32 \<Rightarrow> f32" where
  "fadd NaN _ = NaN"
| "fadd _ NaN = NaN"
| "fadd (Infty s) (Infty t) = (if s = t then Infty s else NaN)"
| "fadd (Infty s) (Fin _ _) = Infty s"
| "fadd (Fin _ _) (Infty t) = Infty t"
| "fadd (Fin s m) (Fin t n) =
     (let v = valof (Fin s m) + valof (Fin t n)
      in if v = 0 then Fin (s \<and> t) 0 else rnd (v < 0) \<bar>v\<bar>)"

definition fsub :: "f32 \<Rightarrow> f32 \<Rightarrow> f32" where
  "fsub x y = fadd x (fneg y)"

fun fmul :: "f32 \<Rightarrow> f32 \<Rightarrow> f32" where
  "fmul NaN _ = NaN"
| "fmul _ NaN = NaN"
| "fmul (Infty s) (Infty t) = Infty (s \<noteq> t)"
| "fmul (Infty s) (Fin t n) = (if n = 0 then NaN else Infty (s \<noteq> t))"
| "fmul (Fin s m) (Infty t) = (if m = 0 then NaN else Infty (s \<noteq> t))"
| "fmul (Fin s m) (Fin t n) = rnd (s \<noteq> t) (m * n)"

fun fdiv :: "f32 \<Rightarrow> f32 \<Rightarrow> f32" where
  "fdiv NaN _ = NaN"
| "fdiv _ NaN = NaN"
| "fdiv (Infty s) (Infty t) = NaN"
| "fdiv (Infty s) (Fin t n) = Infty (s \<noteq> t)"
| "fdiv (Fin s m) (Infty t) = Fin (s \<noteq> t) 0"
| "fdiv (Fin s m) (Fin t n) =
     (if n = 0 then (if m = 0 then NaN else Infty (s \<noteq> t)) else rnd (s \<noteq> t) (m / n))"

text \<open>
  The square root of a positive magnitude, correctly rounded: \<open>e\<close> is the exponent of the
  root, \<open>n\<close> the integer square root of the magnitude counted in squared units of the last
  place, found bit by bit, and the comparison with \<open>(n + 1/2)\<^sup>2\<close> decides the rounding.
\<close>

fun sqrt_bits :: "nat \<Rightarrow> int \<Rightarrow> int \<Rightarrow> int" where
  "sqrt_bits 0 r t = r"
| "sqrt_bits (Suc k) r t =
     (if (r + 2 ^ k) * (r + 2 ^ k) \<le> t then sqrt_bits k (r + 2 ^ k) t else sqrt_bits k r t)"

definition sqrt_rnd :: "real \<Rightarrow> f32" where
  "sqrt_rnd m =
     (let e = expo_up 276 (- 149) (2 powi (- 149)) m div 2;
          u = 2 powi (e - 23);
          t = m / (u * u);
          n = sqrt_bits 24 0 \<lfloor>t\<rfloor>;
          h = (of_int n + 1 / 2) * (of_int n + 1 / 2);
          n' = (if t < h then n else if h < t then n + 1 else if even n then n else n + 1)
      in Fin False (of_int n' * u))"

fun sqrtf :: "f32 \<Rightarrow> f32" where
  "sqrtf NaN = NaN"
| "sqrtf (Infty s) = (if s then NaN else Infty False)"
| "sqrtf (Fin s m) = (if m = 0 then Fin s 0 else if s then NaN else sqrt_rnd m)"

text \<open>The comparisons of C: false whenever an operand is a NaN; the two zeros are equal.\<close>

fun flt :: "f32 \<Rightarrow> f32 \<Rightarrow> bool" where
  "flt NaN _ = False"
| "flt _ NaN = False"
| "flt (Infty s) (Infty t) = (s \<and> \<not> t)"
| "flt (Infty s) (Fin _ _) = s"
| "flt (Fin _ _) (Infty t) = (\<not> t)"
| "flt (Fin s m) (Fin t n) = (valof (Fin s m) < valof (Fin t n))"

fun fle :: "f32 \<Rightarrow> f32 \<Rightarrow> bool" where
  "fle NaN _ = False"
| "fle _ NaN = False"
| "fle (Infty s) (Infty t) = (s \<or> \<not> t)"
| "fle (Infty s) (Fin _ _) = s"
| "fle (Fin _ _) (Infty t) = (\<not> t)"
| "fle (Fin s m) (Fin t n) = (valof (Fin s m) \<le> valof (Fin t n))"

fun feq :: "f32 \<Rightarrow> f32 \<Rightarrow> bool" where
  "feq NaN _ = False"
| "feq _ NaN = False"
| "feq (Infty s) (Infty t) = (s = t)"
| "feq (Infty _) (Fin _ _) = False"
| "feq (Fin _ _) (Infty _) = False"
| "feq (Fin s m) (Fin t n) = (valof (Fin s m) = valof (Fin t n))"

definition fgt :: "f32 \<Rightarrow> f32 \<Rightarrow> bool" where
  "fgt x y = flt y x"

section \<open>Memory and diagnostics\<close>

text \<open>
  A \<^verbatim>\<open>float *\<close> is an address counted in cells of one float; \<open>0\<close> is the null pointer
  and \<open>p[i]\<close> is the cell \<open>p + i\<close>. The state holds the memory and the lines that
  \<^verbatim>\<open>v3_error\<close> has printed on the standard error stream.
\<close>

type_synonym addr = nat

record state =
  mem :: "addr \<Rightarrow> f32"
  err :: "string list"

definition rd :: "state \<Rightarrow> addr \<Rightarrow> nat \<Rightarrow> f32" where
  "rd s p i = mem s (p + i)"

definition wr :: "addr \<Rightarrow> nat \<Rightarrow> f32 \<Rightarrow> state \<Rightarrow> state" where
  "wr p i x s = s\<lparr>mem := (mem s)(p + i := x)\<rparr>"

definition vec :: "state \<Rightarrow> addr \<Rightarrow> f32 \<times> f32 \<times> f32" where
  "vec s p = (rd s p 0, rd s p 1, rd s p 2)"

definition v3_error :: "string \<Rightarrow> state \<Rightarrow> state" where
  "v3_error msg s = s\<lparr>err := err s @ [''Error: '' @ msg]\<rparr>"

definition v3_valid_ptr3 :: "addr \<Rightarrow> bool" where
  "v3_valid_ptr3 p = (p \<noteq> 0)"

definition clampf :: "f32 \<Rightarrow> f32 \<Rightarrow> f32 \<Rightarrow> f32" where
  "clampf x lo hi = (if flt x lo then lo else if fgt x hi then hi else x)"

section \<open>The vector operations\<close>

definition v3_from_points :: "state \<Rightarrow> addr \<Rightarrow> addr \<Rightarrow> addr \<Rightarrow> state" where
  "v3_from_points s dst a b =
     (if \<not> v3_valid_ptr3 dst \<or> \<not> v3_valid_ptr3 a \<or> \<not> v3_valid_ptr3 b
      then v3_error ''v3_from_points received NULL pointer'' s
      else let ax = rd s a 0; ay = rd s a 1; az = rd s a 2;
               bx = rd s b 0; by = rd s b 1; bz = rd s b 2
           in wr dst 2 (fsub bz az) (wr dst 1 (fsub by ay) (wr dst 0 (fsub bx ax) s)))"

definition v3_add :: "state \<Rightarrow> addr \<Rightarrow> addr \<Rightarrow> addr \<Rightarrow> state" where
  "v3_add s dst a b =
     (if \<not> v3_valid_ptr3 dst \<or> \<not> v3_valid_ptr3 a \<or> \<not> v3_valid_ptr3 b
      then v3_error ''v3_add received NULL pointer'' s
      else let ax = rd s a 0; ay = rd s a 1; az = rd s a 2;
               bx = rd s b 0; by = rd s b 1; bz = rd s b 2
           in wr dst 2 (fadd az bz) (wr dst 1 (fadd ay by) (wr dst 0 (fadd ax bx) s)))"

definition v3_subtract :: "state \<Rightarrow> addr \<Rightarrow> addr \<Rightarrow> addr \<Rightarrow> state" where
  "v3_subtract s dst a b =
     (if \<not> v3_valid_ptr3 dst \<or> \<not> v3_valid_ptr3 a \<or> \<not> v3_valid_ptr3 b
      then v3_error ''v3_subtract received NULL pointer'' s
      else let ax = rd s a 0; ay = rd s a 1; az = rd s a 2;
               bx = rd s b 0; by = rd s b 1; bz = rd s b 2
           in wr dst 2 (fsub az bz) (wr dst 1 (fsub ay by) (wr dst 0 (fsub ax bx) s)))"

definition v3_dot_product :: "state \<Rightarrow> addr \<Rightarrow> addr \<Rightarrow> f32 \<times> state" where
  "v3_dot_product s a b =
     (if \<not> v3_valid_ptr3 a \<or> \<not> v3_valid_ptr3 b
      then (NaN, v3_error ''v3_dot_product received NULL pointer'' s)
      else (fadd (fadd (fmul (rd s a 0) (rd s b 0)) (fmul (rd s a 1) (rd s b 1)))
                 (fmul (rd s a 2) (rd s b 2)), s))"

definition v3_cross_product :: "state \<Rightarrow> addr \<Rightarrow> addr \<Rightarrow> addr \<Rightarrow> state" where
  "v3_cross_product s dst a b =
     (if \<not> v3_valid_ptr3 dst \<or> \<not> v3_valid_ptr3 a \<or> \<not> v3_valid_ptr3 b
      then v3_error ''v3_cross_product received NULL pointer'' s
      else let ax = rd s a 0; ay = rd s a 1; az = rd s a 2;
               bx = rd s b 0; by = rd s b 1; bz = rd s b 2
           in wr dst 2 (fsub (fmul ax by) (fmul ay bx))
             (wr dst 1 (fsub (fmul az bx) (fmul ax bz))
             (wr dst 0 (fsub (fmul ay bz) (fmul az by)) s)))"

definition v3_scale :: "state \<Rightarrow> addr \<Rightarrow> f32 \<Rightarrow> state" where
  "v3_scale s dst k =
     (if \<not> v3_valid_ptr3 dst
      then v3_error ''v3_scale received NULL pointer'' s
      else let s1 = wr dst 0 (fmul (rd s dst 0) k) s;
               s2 = wr dst 1 (fmul (rd s1 dst 1) k) s1
           in wr dst 2 (fmul (rd s2 dst 2) k) s2)"

definition v3_length :: "state \<Rightarrow> addr \<Rightarrow> f32 \<times> state" where
  "v3_length s a =
     (if \<not> v3_valid_ptr3 a
      then (NaN, v3_error ''v3_length received NULL pointer'' s)
      else let x = rd s a 0; y = rd s a 1; z = rd s a 2
           in (sqrtf (fadd (fadd (fmul x x) (fmul y y)) (fmul z z)), s))"

definition v3_normalize :: "state \<Rightarrow> addr \<Rightarrow> addr \<Rightarrow> state" where
  "v3_normalize s dst a =
     (if \<not> v3_valid_ptr3 dst \<or> \<not> v3_valid_ptr3 a
      then v3_error ''v3_normalize received NULL pointer'' s
      else let x = rd s a 0; y = rd s a 1; z = rd s a 2;
               len = sqrtf (fadd (fadd (fmul x x) (fmul y y)) (fmul z z))
           in if feq len (Fin False 0) \<or> \<not> isfinite len
              then wr dst 2 (Fin False 0) (wr dst 1 (Fin False 0) (wr dst 0 (Fin False 0)
                     (v3_error ''v3_normalize cannot normalize zero-length or non-finite vector'' s)))
              else let inv = fdiv (Fin False 1) len
                   in wr dst 2 (fmul z inv) (wr dst 1 (fmul y inv) (wr dst 0 (fmul x inv) s)))"

definition v3_angle_quick :: "state \<Rightarrow> addr \<Rightarrow> addr \<Rightarrow> f32 \<times> state" where
  "v3_angle_quick s a b =
     (if \<not> v3_valid_ptr3 a \<or> \<not> v3_valid_ptr3 b
      then (NaN, v3_error ''v3_angle_quick received NULL pointer'' s)
      else let (la, s1) = v3_length s a;
               (lb, s2) = v3_length s1 b
           in if feq la (Fin False 0) \<or> feq lb (Fin False 0) \<or> \<not> isfinite la \<or> \<not> isfinite lb
              then (NaN, v3_error ''v3_angle_quick undefined for zero-length or non-finite vectors'' s2)
              else let (d, s3) = v3_dot_product s2 a b;
                       cosv = fdiv d (fmul la lb)
                   in (clampf cosv (Fin True 1) (Fin False 1), s3))"

text \<open>
  \<^verbatim>\<open>acosf\<close> is the C library's; the model takes it as the parameter \<open>acosf\<close>.
\<close>

definition v3_angle :: "(f32 \<Rightarrow> f32) \<Rightarrow> state \<Rightarrow> addr \<Rightarrow> addr \<Rightarrow> f32 \<times> state" where
  "v3_angle acosf s a b =
     (let (cosv, s1) = v3_angle_quick s a b
      in if \<not> isfinite cosv then (NaN, s1) else (acosf cosv, s1))"

text \<open>
  \<^verbatim>\<open>v3_reflect\<close> normalises \<open>n\<close> into its local array \<^verbatim>\<open>nn\<close>. The model takes the
  address of that array as the parameter \<open>nn\<close>: automatic storage of the call, which no
  buffer of the caller overlaps.
\<close>

definition v3_reflect :: "state \<Rightarrow> addr \<Rightarrow> addr \<Rightarrow> addr \<Rightarrow> addr \<Rightarrow> state" where
  "v3_reflect s nn dst v n =
     (if \<not> v3_valid_ptr3 dst \<or> \<not> v3_valid_ptr3 v \<or> \<not> v3_valid_ptr3 n
      then v3_error ''v3_reflect received NULL pointer'' s
      else let s1 = v3_normalize s nn n;
               (nn_len, s2) = v3_length s1 nn
           in if feq nn_len (Fin False 0) \<or> \<not> isfinite nn_len
              then let s3 = v3_error ''v3_reflect undefined because normal vector is zero-length'' s2;
                       s4 = wr dst 0 (rd s3 v 0) s3;
                       s5 = wr dst 1 (rd s4 v 1) s4
                   in wr dst 2 (rd s5 v 2) s5
              else let vx = rd s2 v 0; vy = rd s2 v 1; vz = rd s2 v 2;
                       dotvn = fadd (fadd (fmul vx (rd s2 nn 0)) (fmul vy (rd s2 nn 1)))
                                    (fmul vz (rd s2 nn 2))
                   in wr dst 2 (fsub vz (fmul (fmul (Fin False 2) dotvn) (rd s2 nn 2)))
                     (wr dst 1 (fsub vy (fmul (fmul (Fin False 2) dotvn) (rd s2 nn 1)))
                     (wr dst 0 (fsub vx (fmul (fmul (Fin False 2) dotvn) (rd s2 nn 0))) s2)))"

definition v3_equals :: "state \<Rightarrow> addr \<Rightarrow> addr \<Rightarrow> f32 \<Rightarrow> bool" where
  "v3_equals s a b tolerance =
     (if \<not> v3_valid_ptr3 a \<or> \<not> v3_valid_ptr3 b then False
      else let tol = (if flt tolerance (Fin False 0) then fneg tolerance else tolerance)
           in fle (fabsf (fsub (rd s a 0) (rd s b 0))) tol \<and>
              fle (fabsf (fsub (rd s a 1) (rd s b 1))) tol \<and>
              fle (fabsf (fsub (rd s a 2) (rd s b 2))) tol)"

section \<open>Buffers and values\<close>

text \<open>
  A buffer is three consecutive cells. Two buffers of a C program are the same object or
  share no cell. \<open>state_of xs\<close> is the memory that holds \<open>xs\<close> from address 1 on, zeros
  elsewhere, and an empty diagnostic stream.
\<close>

definition disjoint :: "addr \<Rightarrow> addr \<Rightarrow> bool" where
  "disjoint p q = (p + 3 \<le> q \<or> q + 3 \<le> p)"

definition zero3 :: "f32 \<times> f32 \<times> f32" where
  "zero3 = (Fin False 0, Fin False 0, Fin False 0)"

definition state_of :: "f32 list \<Rightarrow> state" where
  "state_of xs =
     \<lparr>mem = (\<lambda>p. if 0 < p \<and> p \<le> length xs then xs ! (p - 1) else Fin False 0), err = []\<rparr>"

text \<open>
  What the operations compute from the three values they read, whatever the addresses:
  the length, the normalised vector and the reflection.
\<close>

fun length3 :: "f32 \<times> f32 \<times> f32 \<Rightarrow> f32" where
  "length3 (x, y, z) = sqrtf (fadd (fadd (fmul x x) (fmul y y)) (fmul z z))"

fun normalize3 :: "f32 \<times> f32 \<times> f32 \<Rightarrow> f32 \<times> f32 \<times> f32" where
  "normalize3 (x, y, z) =
     (let len = length3 (x, y, z)
      in if feq len (Fin False 0) \<or> \<not> isfinite len then zero3
         else let inv = fdiv (Fin False 1) len in (fmul x inv, fmul y inv, fmul z inv))"

fun dot3 :: "f32 \<times> f32 \<times> f32 \<Rightarrow> f32 \<times> f32 \<times> f32 \<Rightarrow> f32" where
  "dot3 (ax, ay, az) (bx, by, bz) = fadd (fadd (fmul ax bx) (fmul ay by)) (fmul az bz)"

fun reflect3 :: "f32 \<times> f32 \<times> f32 \<Rightarrow> f32 \<times> f32 \<times> f32 \<Rightarrow> f32 \<times> f32 \<times> f32" where
  "reflect3 (vx, vy, vz) n =
     (case normalize3 n of (nx, ny, nz) \<Rightarrow>
        let nn_len = length3 (nx, ny, nz)
        in if feq nn_len (Fin False 0) \<or> \<not> isfinite nn_len then (vx, vy, vz)
           else let dotvn = dot3 (vx, vy, vz) (nx, ny, nz)
                in (fsub vx (fmul (fmul (Fin False 2) dotvn) nx),
                    fsub vy (fmul (fmul (Fin False 2) dotvn) ny),
                    fsub vz (fmul (fmul (Fin False 2) dotvn) nz)))"

definition rval :: "real \<Rightarrow> real" where
  "rval m = of_int (round_even (m / 2 powi (expo m - 23))) * 2 powi (expo m - 23)"

fun wf :: "f32 \<Rightarrow> bool" where
  "wf (Fin s m) = (0 \<le> m)"
| "wf _ = True"

definition in_unit :: "f32 \<Rightarrow> bool" where
  "in_unit r = (fle (Fin True 1) r \<and> fle r (Fin False 1))"

definition sumsq :: "real \<Rightarrow> real \<Rightarrow> real \<Rightarrow> real" where
  "sumsq m1 m2 m3 = rval (rval (rval (m1 * m1) + rval (m2 * m2)) + rval (m3 * m3))"

fun f32_vec :: "f32 \<times> f32 \<times> f32 \<Rightarrow> bool" where
  "f32_vec (x, y, z) = (is_f32 x \<and> is_f32 y \<and> is_f32 z)"

fun finite3 :: "f32 \<times> f32 \<times> f32 \<Rightarrow> bool" where
  "finite3 (x, y, z) = (isfinite x \<and> isfinite y \<and> isfinite z)"

fun norm3 :: "f32 \<times> f32 \<times> f32 \<Rightarrow> real" where
  "norm3 (x, y, z) = sqrt ((valof x)\<^sup>2 + (valof y)\<^sup>2 + (valof z)\<^sup>2)"

definition near_one :: "f32 \<Rightarrow> bool" where
  "near_one r = (isfinite r \<and> \<bar>valof r - 1\<bar> \<le> 1 / 10000)"




declare length3.simps [simp del] normalize3.simps [simp del] dot3.simps [simp del]
  reflect3.simps [simp del]

section \<open>Reading and writing memory\<close>

lemma rd_wr: "rd (wr p i x s) q j = (if p + i = q + j then x else rd s q j)"
  by (simp add: rd_def wr_def)
lemma rd_error: "rd (v3_error msg s) q j = rd s q j"
  by (simp add: rd_def v3_error_def)
lemma err_wr: "err (wr p i x s) = err s"
  by (simp add: wr_def)
lemma mem_error: "mem (v3_error msg s) = mem s"
  by (simp add: v3_error_def)
lemma err_error: "err (v3_error msg s) = err s @ [''Error: '' @ msg]"
  by (simp add: v3_error_def)

lemma vec_wr3: "vec (wr p 2 z (wr p (Suc 0) y (wr p 0 x s))) p = (x, y, z)"
  by (simp add: vec_def rd_wr)

lemma vec_wr3_other:
  "disjoint p q \<Longrightarrow> vec (wr p 2 z (wr p (Suc 0) y (wr p 0 x s))) q = vec s q"
  by (auto simp: vec_def rd_wr disjoint_def)

lemma vec_error: "vec (v3_error msg s) p = vec s p"
  by (simp add: vec_def rd_error)

lemma err_wr3: "err (wr p 2 z (wr p (Suc 0) y (wr p 0 x s))) = err s"
  by (simp add: err_wr)

lemma vec_eq_rd:
  "vec s p = vec s' p' \<longleftrightarrow>
     rd s p 0 = rd s' p' 0 \<and> rd s p (Suc 0) = rd s' p' (Suc 0) \<and> rd s p 2 = rd s' p' 2"
  by (simp add: vec_def)

lemma rd_state_of:
  "rd (state_of xs) p i =
     (if 0 < p + i \<and> p + i \<le> length xs then xs ! (p + i - 1) else Fin False 0)"
  by (simp add: rd_def state_of_def)

lemma err_state_of: "err (state_of xs) = []"
  by (simp add: state_of_def)

section \<open>Evaluating the arithmetic\<close>

lemma expo_up_num:
  "expo_up (numeral k) e p m =
     (if 2 * p \<le> m then expo_up (pred_numeral k) (e + 1) (2 * p) m else e)"
  by (simp add: numeral_eq_Suc)

lemma sqrt_bits_num:
  "sqrt_bits (numeral k) r t =
     (if (r + 2 ^ pred_numeral k) * (r + 2 ^ pred_numeral k) \<le> t
      then sqrt_bits (pred_numeral k) (r + 2 ^ pred_numeral k) t
      else sqrt_bits (pred_numeral k) r t)"
  by (simp add: numeral_eq_Suc)

lemmas f32_eval = expo_def expo_up_num sqrt_bits_num rnd_def sqrt_rnd_def round_even_def Let_def

lemma rnd_zero: "rnd s 0 = Fin s 0"
  by (simp add: f32_eval)

lemma fsub_nan: "isnan x \<or> isnan y \<Longrightarrow> fsub x y = NaN"
  by (cases x; cases y) (auto simp: fsub_def)

section \<open>The operations as functions of the values read\<close>

lemma v3_length_vec: "a \<noteq> 0 \<Longrightarrow> v3_length s a = (length3 (vec s a), s)"
  by (simp add: v3_length_def length3.simps vec_def v3_valid_ptr3_def Let_def)

lemma v3_normalize_vec:
  "dst \<noteq> 0 \<Longrightarrow> a \<noteq> 0 \<Longrightarrow> vec (v3_normalize s dst a) dst = normalize3 (vec s a)"
  by (simp add: v3_normalize_def normalize3.simps length3.simps zero3_def v3_valid_ptr3_def Let_def
      vec_def rd_wr rd_error)

lemma v3_normalize_other:
  "disjoint dst q \<Longrightarrow> vec (v3_normalize s dst a) q = vec s q"
  by (simp add: v3_normalize_def Let_def vec_wr3_other vec_error)

lemma length3_zero3: "length3 zero3 = Fin False 0"
  by (simp add: length3.simps zero3_def rnd_zero)

lemma v3_reflect_vec:
  assumes "dst \<noteq> 0" "v \<noteq> 0" "n \<noteq> 0" "nn \<noteq> 0"
    and "disjoint nn dst" "disjoint nn v" "disjoint nn n"
    and "dst = v \<or> disjoint dst v"
  shows "vec (v3_reflect s nn dst v n) dst = reflect3 (vec s v) (vec s n)"
proof -
  define s1 where "s1 = v3_normalize s nn n"
  obtain nx ny nz where N: "normalize3 (vec s n) = (nx, ny, nz)"
    by (cases "normalize3 (vec s n)") auto
  have "vec s1 nn = (nx, ny, nz)"
    using assms(3,4) N by (simp add: s1_def v3_normalize_vec)
  then have nn: "rd s1 nn 0 = nx" "rd s1 nn (Suc 0) = ny" "rd s1 nn 2 = nz"
    by (simp_all add: vec_def)
  have "vec s1 v = vec s v"
    using assms(6) by (simp add: s1_def v3_normalize_other)
  then have vv: "rd s1 v 0 = rd s v 0" "rd s1 v (Suc 0) = rd s v (Suc 0)" "rd s1 v 2 = rd s v 2"
    by (simp_all add: vec_eq_rd)
  have len: "v3_length s1 nn = (length3 (nx, ny, nz), s1)"
    using assms(4) by (simp add: v3_length_vec vec_def nn)
  have N': "normalize3 (rd s n 0, rd s n (Suc 0), rd s n 2) = (nx, ny, nz)"
    using N by (simp add: vec_def)
  show ?thesis
    using assms(1,2,3,8)
    by (auto simp: v3_reflect_def s1_def [symmetric] len N' reflect3.simps dot3.simps Let_def vec_def rd_wr
        rd_error nn vv v3_valid_ptr3_def disjoint_def)
qed

lemma v3_from_points_vec:
  "dst \<noteq> 0 \<Longrightarrow> a \<noteq> 0 \<Longrightarrow> b \<noteq> 0 \<Longrightarrow>
   vec (v3_from_points s dst a b) dst =
     (fsub (rd s b 0) (rd s a 0), fsub (rd s b (Suc 0)) (rd s a (Suc 0)), fsub (rd s b 2) (rd s a 2))"
  by (simp add: v3_from_points_def v3_valid_ptr3_def Let_def vec_wr3)

lemma v3_add_vec:
  "dst \<noteq> 0 \<Longrightarrow> a \<noteq> 0 \<Longrightarrow> b \<noteq> 0 \<Longrightarrow>
   vec (v3_add s dst a b) dst =
     (fadd (rd s a 0) (rd s b 0), fadd (rd s a (Suc 0)) (rd s b (Suc 0)), fadd (rd s a 2) (rd s b 2))"
  by (simp add: v3_add_def v3_valid_ptr3_def Let_def vec_wr3)

lemma v3_subtract_vec:
  "dst \<noteq> 0 \<Longrightarrow> a \<noteq> 0 \<Longrightarrow> b \<noteq> 0 \<Longrightarrow>
   vec (v3_subtract s dst a b) dst =
     (fsub (rd s a 0) (rd s b 0), fsub (rd s a (Suc 0)) (rd s b (Suc 0)), fsub (rd s a 2) (rd s b 2))"
  by (simp add: v3_subtract_def v3_valid_ptr3_def Let_def vec_wr3)

lemma v3_cross_product_vec:
  "dst \<noteq> 0 \<Longrightarrow> a \<noteq> 0 \<Longrightarrow> b \<noteq> 0 \<Longrightarrow>
   vec (v3_cross_product s dst a b) dst =
     (fsub (fmul (rd s a (Suc 0)) (rd s b 2)) (fmul (rd s a 2) (rd s b (Suc 0))),
      fsub (fmul (rd s a 2) (rd s b 0)) (fmul (rd s a 0) (rd s b 2)),
      fsub (fmul (rd s a 0) (rd s b (Suc 0))) (fmul (rd s a (Suc 0)) (rd s b 0)))"
  by (simp add: v3_cross_product_def v3_valid_ptr3_def Let_def vec_wr3)

section \<open>Overlapping buffers\<close>

text \<open>
  C1. Each of \<^verbatim>\<open>v3_from_points\<close>, \<^verbatim>\<open>v3_add\<close>, \<^verbatim>\<open>v3_subtract\<close>,
  \<^verbatim>\<open>v3_cross_product\<close>, \<^verbatim>\<open>v3_normalize\<close> and \<^verbatim>\<open>v3_reflect\<close>, called with the
  destination being one of its source buffers (or both), leaves in the destination the
  values that a call with a destination apart from the sources leaves there, when the
  sources hold the same values in both calls.
\<close>

theorem overlap_safe:
  assumes valid: "dst \<noteq> 0" "a \<noteq> 0" "b \<noteq> 0" "dst' \<noteq> 0" "a' \<noteq> 0" "b' \<noteq> 0"
    and over: "dst = a \<or> dst = b"
    and whole: "a = b \<or> disjoint a b"
    and apart: "disjoint dst' a'" "disjoint dst' b'"
    and same: "vec s a = vec s' a'" "vec s b = vec s' b'"
    and frame: "nn \<noteq> 0" "disjoint nn a" "disjoint nn b"
    and frame': "nn' \<noteq> 0" "disjoint nn' dst'" "disjoint nn' a'" "disjoint nn' b'"
  shows "vec (v3_from_points s dst a b) dst = vec (v3_from_points s' dst' a' b') dst' \<and>
         vec (v3_add s dst a b) dst = vec (v3_add s' dst' a' b') dst' \<and>
         vec (v3_subtract s dst a b) dst = vec (v3_subtract s' dst' a' b') dst' \<and>
         vec (v3_cross_product s dst a b) dst = vec (v3_cross_product s' dst' a' b') dst' \<and>
         vec (v3_normalize s a a) a = vec (v3_normalize s' dst' a') dst' \<and>
         vec (v3_reflect s nn dst a b) dst = vec (v3_reflect s' nn' dst' a' b') dst'"
proof -
  note rds = same [unfolded vec_eq_rd]
  have 1: "vec (v3_from_points s dst a b) dst = vec (v3_from_points s' dst' a' b') dst'"
    using valid rds by (simp add: v3_from_points_vec)
  have 2: "vec (v3_add s dst a b) dst = vec (v3_add s' dst' a' b') dst'"
    using valid rds by (simp add: v3_add_vec)
  have 3: "vec (v3_subtract s dst a b) dst = vec (v3_subtract s' dst' a' b') dst'"
    using valid rds by (simp add: v3_subtract_vec)
  have 4: "vec (v3_cross_product s dst a b) dst = vec (v3_cross_product s' dst' a' b') dst'"
    using valid rds by (simp add: v3_cross_product_vec)
  have 5: "vec (v3_normalize s a a) a = vec (v3_normalize s' dst' a') dst'"
    using valid same by (simp add: v3_normalize_vec)
  have d: "disjoint nn dst" "dst = a \<or> disjoint dst a"
    using over whole frame by (auto simp: disjoint_def)
  have "vec (v3_reflect s nn dst a b) dst = reflect3 (vec s a) (vec s b)"
    using valid(1-3) frame(1) d(1) frame(2,3) d(2) by (rule v3_reflect_vec)
  moreover have "vec (v3_reflect s' nn' dst' a' b') dst' = reflect3 (vec s' a') (vec s' b')"
    using valid(4-6) frame' apart(1) by (intro v3_reflect_vec) simp_all
  ultimately have 6: "vec (v3_reflect s nn dst a b) dst = vec (v3_reflect s' nn' dst' a' b') dst'"
    using same by simp
  from 1 2 3 4 5 6 show ?thesis by simp
qed

theorem overlap_safe_witness:
  "vec (v3_cross_product (state_of [Fin False 1, Fin False 0, Fin False 0,
                                    Fin False 0, Fin False 1, Fin False 0]) 1 1 4) 1 =
   vec (v3_cross_product (state_of [Fin False 1, Fin False 0, Fin False 0,
                                    Fin False 0, Fin False 1, Fin False 0]) 7 1 4) 7 \<and>
   vec (v3_reflect (state_of [Fin False 1, Fin False 0, Fin False 0,
                              Fin False 0, Fin False 1, Fin False 0]) 10 1 1 4) 1 =
   vec (v3_reflect (state_of [Fin False 1, Fin False 0, Fin False 0,
                              Fin False 0, Fin False 1, Fin False 0]) 10 7 1 4) 7"
  using overlap_safe [where dst = 1 and a = 1 and b = 4 and dst' = 7 and a' = 1 and b' = 4
      and nn = 10 and nn' = 10
      and s = "state_of [Fin False 1, Fin False 0, Fin False 0, Fin False 0, Fin False 1, Fin False 0]"
      and s' = "state_of [Fin False 1, Fin False 0, Fin False 0, Fin False 0, Fin False 1, Fin False 0]"]
  by (simp add: disjoint_def)

section \<open>Degenerate vectors\<close>

text \<open>
  C2. When the length that \<^verbatim>\<open>v3_length\<close> computes for the source is zero or not finite,
  \<^verbatim>\<open>v3_normalize\<close> reports the failure on the diagnostic stream and writes the zero
  vector to the destination; it returns normally.
\<close>

theorem normalize_degenerate:
  assumes "dst \<noteq> 0" and "a \<noteq> 0"
    and "feq (fst (v3_length s a)) (Fin False 0) \<or> \<not> isfinite (fst (v3_length s a))"
  shows "vec (v3_normalize s dst a) dst = zero3 \<and>
         err (v3_normalize s dst a) =
           err s @ [''Error: v3_normalize cannot normalize zero-length or non-finite vector'']"
  using assms
  by (simp add: v3_normalize_def v3_length_def v3_valid_ptr3_def Let_def vec_wr3 err_wr
      err_error zero3_def)

theorem normalize_degenerate_witness:
  "vec (v3_normalize (state_of [Fin False 0, Fin False 0, Fin False 0]) 4 1) 4 = zero3 \<and>
   err (v3_normalize (state_of [Fin False 0, Fin False 0, Fin False 0]) 4 1) =
     [''Error: v3_normalize cannot normalize zero-length or non-finite vector'']"
  using normalize_degenerate [of 4 1 "state_of [Fin False 0, Fin False 0, Fin False 0]"]
  by (simp add: v3_length_def v3_valid_ptr3_def Let_def rd_state_of rnd_zero err_state_of)

text \<open>
  C3. When the normal normalises to the zero vector, \<^verbatim>\<open>v3_reflect\<close> reports the failure
  and leaves \<open>v\<close> itself in the destination.
\<close>

theorem reflect_degenerate:
  assumes "dst \<noteq> 0" "v \<noteq> 0" "n \<noteq> 0" "nn \<noteq> 0"
    and "disjoint nn dst" "disjoint nn v" "disjoint nn n"
    and "dst = v \<or> disjoint dst v"
    and "vec (v3_normalize s nn n) nn = zero3"
  shows "vec (v3_reflect s nn dst v n) dst = vec s v \<and>
         err (v3_reflect s nn dst v n) =
           err (v3_normalize s nn n) @
             [''Error: v3_reflect undefined because normal vector is zero-length'']"
proof -
  have N: "normalize3 (vec s n) = zero3"
    using assms(3,4,9) by (simp add: v3_normalize_vec)
  have "vec (v3_reflect s nn dst v n) dst = reflect3 (vec s v) (vec s n)"
    using assms(1-8) by (rule v3_reflect_vec)
  also have "\<dots> = vec s v"
    using length3_zero3 by (cases "vec s v") (simp add: reflect3.simps N zero3_def)
  finally have 1: "vec (v3_reflect s nn dst v n) dst = vec s v" .
  have "v3_length (v3_normalize s nn n) nn = (Fin False 0, v3_normalize s nn n)"
    using assms(4,9) length3_zero3 by (simp add: v3_length_vec)
  then have 2: "err (v3_reflect s nn dst v n) =
           err (v3_normalize s nn n) @
             [''Error: v3_reflect undefined because normal vector is zero-length'']"
    using assms(1,2,3)
    by (simp add: v3_reflect_def Let_def v3_valid_ptr3_def err_wr err_error)
  from 1 2 show ?thesis by simp
qed

theorem reflect_degenerate_witness:
  "vec (v3_reflect (state_of [Fin False 0, Fin True 1, Fin False 0,
                              Fin False 0, Fin False 0, Fin False 0]) 10 7 1 4) 7 =
     (Fin False 0, Fin True 1, Fin False 0) \<and>
   err (v3_reflect (state_of [Fin False 0, Fin True 1, Fin False 0,
                              Fin False 0, Fin False 0, Fin False 0]) 10 7 1 4) =
     [''Error: v3_normalize cannot normalize zero-length or non-finite vector'',
      ''Error: v3_reflect undefined because normal vector is zero-length'']"
proof -
  let ?s = "state_of [Fin False 0, Fin True 1, Fin False 0, Fin False 0, Fin False 0, Fin False 0]"
  have n: "vec (v3_normalize ?s 10 4) 10 = zero3"
    by (simp add: v3_normalize_vec)
       (simp add: normalize3.simps length3.simps zero3_def vec_def rd_state_of rnd_zero Let_def)
  have e: "err (v3_normalize ?s 10 4) =
      [''Error: v3_normalize cannot normalize zero-length or non-finite vector'']"
    by (simp add: v3_normalize_def v3_valid_ptr3_def Let_def rd_state_of rnd_zero err_wr
        err_error err_state_of)
  have v: "vec ?s 1 = (Fin False 0, Fin True 1, Fin False 0)"
    by (simp add: vec_def rd_state_of)
  have "vec (v3_reflect ?s 10 7 1 4) 7 = vec ?s 1 \<and>
        err (v3_reflect ?s 10 7 1 4) = err (v3_normalize ?s 10 4) @
          [''Error: v3_reflect undefined because normal vector is zero-length'']"
    by (rule reflect_degenerate) (simp_all add: disjoint_def n)
  then show ?thesis
    unfolding e v by simp
qed

text \<open>
  C4. When \<^verbatim>\<open>v3_angle_quick\<close> returns a NaN, \<^verbatim>\<open>v3_angle\<close> returns a NaN whatever the
  arc cosine is: it is not applied.
\<close>

theorem angle_propagates:
  assumes "fst (v3_angle_quick s a b) = NaN"
  shows "v3_angle acosf s a b = (NaN, snd (v3_angle_quick s a b))"
  using assms by (cases "v3_angle_quick s a b") (simp add: v3_angle_def)

theorem angle_propagates_witness:
  "v3_angle (\<lambda>x. Fin False 0)
     (state_of [Fin False 0, Fin False 0, Fin False 0, Fin False 1, Fin False 0, Fin False 0]) 1 4 =
   (NaN, snd (v3_angle_quick
     (state_of [Fin False 0, Fin False 0, Fin False 0, Fin False 1, Fin False 0, Fin False 0]) 1 4))"
  using angle_propagates [of
      "state_of [Fin False 0, Fin False 0, Fin False 0, Fin False 1, Fin False 0, Fin False 0]" 1 4
      "\<lambda>x. Fin False 0"]
  by (simp add: v3_angle_quick_def v3_length_def v3_valid_ptr3_def rd_state_of rnd_zero Let_def)

section \<open>Displacement and comparison\<close>

text \<open>
  C7. \<^verbatim>\<open>v3_from_points(dst, a, b)\<close> and \<^verbatim>\<open>v3_subtract(dst, b, a)\<close> leave the same
  memory, and with valid pointers the destination holds \<open>b - a\<close> component by component.
\<close>

theorem from_points_subtract:
  "mem (v3_from_points s dst a b) = mem (v3_subtract s dst b a) \<and>
   (dst \<noteq> 0 \<and> a \<noteq> 0 \<and> b \<noteq> 0 \<longrightarrow>
      vec (v3_from_points s dst a b) dst =
        (fsub (rd s b 0) (rd s a 0), fsub (rd s b 1) (rd s a 1), fsub (rd s b 2) (rd s a 2)))"
  by (simp add: v3_from_points_def v3_subtract_def Let_def mem_error v3_valid_ptr3_def vec_wr3)

theorem from_points_subtract_witness:
  "mem (v3_from_points (state_of [Fin False 1, Fin False 2, Fin False 3,
                                  Fin False 4, Fin False 6, Fin False 3]) 7 1 4) =
   mem (v3_subtract (state_of [Fin False 1, Fin False 2, Fin False 3,
                               Fin False 4, Fin False 6, Fin False 3]) 7 4 1) \<and>
   vec (v3_from_points (state_of [Fin False 1, Fin False 2, Fin False 3,
                                  Fin False 4, Fin False 6, Fin False 3]) 7 1 4) 7 =
     (Fin False 3, Fin False 4, Fin False 0)"
  using from_points_subtract [of
      "state_of [Fin False 1, Fin False 2, Fin False 3, Fin False 4, Fin False 6, Fin False 3]"
      7 1 4]
  by (simp add: rd_state_of fsub_def f32_eval)

text \<open>
  C9. \<^verbatim>\<open>v3_equals\<close> is false as soon as one compared component is a NaN, so a vector
  with a NaN component is not equal to itself under any tolerance.
\<close>

theorem equals_nan_false:
  assumes "i < 3" and "isnan (rd s a i) \<or> isnan (rd s b i)"
  shows "\<not> v3_equals s a b tol"
proof -
  have "fsub (rd s a i) (rd s b i) = NaN"
    using assms(2) by (rule fsub_nan)
  then have "\<not> fle (fabsf (fsub (rd s a i) (rd s b i))) t" for t
    by simp
  moreover have "i = 0 \<or> i = 1 \<or> i = 2"
    using assms(1) by arith
  ultimately show ?thesis
    by (auto simp: v3_equals_def Let_def)
qed

theorem equals_nan_false_witness:
  "\<not> v3_equals (state_of [NaN, Fin False 0, Fin False 0]) 1 1 (Fin False 1)"
  using equals_nan_false [of 0 "state_of [NaN, Fin False 0, Fin False 0]" 1 1 "Fin False 1"]
  by (simp add: rd_state_of)

section \<open>Rounding: exponent, error and monotonicity\<close>

lemma powi_Suc: "(2::real) powi (e + 1) = 2 * 2 powi e"
  by (simp add: power_int_add)

lemma powi_mono: "e \<le> e' \<Longrightarrow> (2::real) powi e \<le> 2 powi e'"
  by (rule power_int_increasing) simp_all

lemma powi_less_iff: "(2::real) powi a < 2 powi b \<longleftrightarrow> a < b"
proof
  assume l: "(2::real) powi a < 2 powi b"
  show "a < b"
  proof (rule ccontr)
    assume "\<not> a < b"
    then have "(2::real) powi b \<le> 2 powi a"
      by (intro powi_mono) simp
    with l show False by simp
  qed
next
  assume "a < b"
  then show "(2::real) powi a < 2 powi b"
    by (rule power_int_strict_increasing) simp
qed

lemma expo_up_spec:
  assumes "p = 2 powi e"
  shows "e \<le> expo_up k e p m \<and> expo_up k e p m \<le> e + int k \<and>
         (p \<le> m \<longrightarrow> 2 powi (expo_up k e p m) \<le> m) \<and>
         (m < 2 powi (e + int k + 1) \<longrightarrow> m < 2 powi (expo_up k e p m + 1)) \<and>
         (2 powi (e + int k) \<le> m \<longrightarrow> expo_up k e p m = e + int k)"
  using assms
proof (induction k arbitrary: e p)
  case 0
  then show ?case by simp
next
  case (Suc k)
  show ?case
  proof (cases "2 * p \<le> m")
    case True
    have p': "2 * p = 2 powi (e + 1)"
      using Suc.prems by (simp add: powi_Suc)
    from Suc.IH [OF p'] True show ?thesis
      by (simp add: ac_simps)
  next
    case False
    have "2 * p \<le> 2 powi (e + int (Suc k))"
      using powi_mono [of "e + 1" "e + int (Suc k)"] Suc.prems by (simp add: powi_Suc)
    with False show ?thesis
      using Suc.prems by (simp add: powi_Suc)
  qed
qed

lemmas expo_spec = expo_up_spec [of "2 powi (- 126)" "- 126" 253, folded expo_def, simplified]

lemma expo_bounds: "- 126 \<le> expo m" "expo m \<le> 127"
  using expo_spec [of m] by simp_all

lemma expo_le: "2 powi (- 126) \<le> m \<Longrightarrow> 2 powi (expo m) \<le> m"
  using expo_spec [of m] by simp

lemma expo_gt: "m < 2 ^ 128 \<Longrightarrow> m < 2 powi (expo m + 1)"
  using expo_spec [of m] by simp

lemma expo_top: "2 ^ 127 \<le> m \<Longrightarrow> expo m = 127"
  using expo_spec [of m] by simp

lemma expo_unique:
  assumes "2 powi e \<le> m" "m < 2 powi (e + 1)" "- 126 \<le> e" "e \<le> 127"
  shows "expo m = e"
proof -
  have "(2::real) powi (- 126) \<le> 2 powi e"
    using assms(3) by (rule powi_mono)
  with assms(1) have lo: "2 powi (expo m) \<le> m"
    by (intro expo_le) simp
  have "(2::real) powi (e + 1) \<le> 2 powi 128"
    using assms(4) by (intro powi_mono) simp
  with assms(2) have "m < 2 ^ 128" by simp
  then have hi: "m < 2 powi (expo m + 1)" by (rule expo_gt)
  from lo assms(2) have "(2::real) powi (expo m) < 2 powi (e + 1)" by simp
  then have "expo m < e + 1" by (simp add: powi_less_iff)
  moreover from assms(1) hi have "(2::real) powi e < 2 powi (expo m + 1)" by simp
  then have "e < expo m + 1" by (simp add: powi_less_iff)
  ultimately show ?thesis by simp
qed

lemma expo_up_stay: "m < 2 * p \<Longrightarrow> expo_up k e p m = e"
  by (cases k) simp_all

lemma expo_small: "m < 2 powi (- 126) \<Longrightarrow> expo m = - 126"
  unfolding expo_def by (rule expo_up_stay) simp

lemma expo_mono:
  assumes "m \<le> m'"
  shows "expo m \<le> expo m'"
proof (cases "m < 2 powi (- 126)")
  case True
  then show ?thesis using expo_bounds(1) [of m'] by (simp add: expo_small)
next
  case False
  then have lo: "2 powi (expo m) \<le> m" by (intro expo_le) simp
  show ?thesis
  proof (cases "m' < 2 ^ 128")
    case True
    then have "m' < 2 powi (expo m' + 1)" by (rule expo_gt)
    with lo assms have "(2::real) powi (expo m) < 2 powi (expo m' + 1)" by simp
    then show ?thesis by (simp add: powi_less_iff)
  next
    case False
    then have "expo m' = 127" by (intro expo_top) simp
    then show ?thesis using expo_bounds(2) [of m] by simp
  qed
qed

lemma round_even_err: "\<bar>of_int (round_even q) - q\<bar> \<le> 1 / 2"
  unfolding round_even_def Let_def by (auto simp: abs_le_iff)

lemma round_even_int: "round_even (of_int n) = n"
  by (simp add: round_even_def)

lemma round_even_mono:
  assumes "q \<le> q'"
  shows "round_even q \<le> round_even q'"
proof (cases "\<lfloor>q\<rfloor> = \<lfloor>q'\<rfloor>")
  case True
  then show ?thesis
    using assms by (auto simp: round_even_def Let_def)
next
  case False
  with assms have "\<lfloor>q\<rfloor> + 1 \<le> \<lfloor>q'\<rfloor>"
    using floor_mono [of q q'] by simp
  moreover have "round_even q \<le> \<lfloor>q\<rfloor> + 1"
    by (simp add: round_even_def Let_def)
  moreover have "\<lfloor>q'\<rfloor> \<le> round_even q'"
    by (simp add: round_even_def Let_def)
  ultimately show ?thesis by simp
qed

lemma rnd_rval: "rnd s m = (if 2 ^ 128 \<le> rval m then Infty s else Fin s (rval m))"
  by (simp add: rnd_def rval_def Let_def)

lemma rval_err: "\<bar>rval m - m\<bar> \<le> 2 powi (expo m - 24)"
proof -
  define u :: real where "u = 2 powi (expo m - 23)"
  have u: "0 < u" by (simp add: u_def)
  have "rval m - m = (of_int (round_even (m / u)) - m / u) * u"
    using u by (simp add: rval_def u_def [symmetric] left_diff_distrib)
  then have "\<bar>rval m - m\<bar> = \<bar>of_int (round_even (m / u)) - m / u\<bar> * u"
    using u by (simp add: abs_mult)
  also have "\<dots> \<le> 1 / 2 * u"
    using u by (intro mult_right_mono round_even_err) simp
  also have "\<dots> = 2 powi (expo m - 24)"
    by (simp add: u_def power_int_diff)
  finally show ?thesis .
qed

lemma rval_nonneg: "0 \<le> m \<Longrightarrow> 0 \<le> rval m"
proof -
  assume "0 \<le> m"
  then have "round_even 0 \<le> round_even (m / 2 powi (expo m - 23))"
    by (intro round_even_mono) simp
  then show ?thesis
    using round_even_int [of 0] by (simp add: rval_def)
qed

lemma rval_below: 
  assumes "0 \<le> m" "m < 2 ^ 128"
  shows "rval m \<le> 2 powi (expo m + 1)"
proof -
  define u :: real where "u = 2 powi (expo m - 23)"
  have u: "0 < u" by (simp add: u_def)
  have "m < 2 powi (expo m + 1)" using assms(2) by (rule expo_gt)
  also have "\<dots> = 2 ^ 24 * u" by (simp add: u_def power_int_diff power_int_add)
  finally have "m / u \<le> of_int (2 ^ 24)" using u by (simp add: field_simps)
  then have "round_even (m / u) \<le> round_even (of_int (2 ^ 24))"
    by (rule round_even_mono)
  then have "round_even (m / u) \<le> 2 ^ 24"
    by (simp only: round_even_int)
  then have "of_int (round_even (m / u)) * u \<le> 2 ^ 24 * u"
    using u by (intro mult_right_mono) (simp_all add: of_int_le_iff [symmetric] del: of_int_le_iff)
  then show ?thesis
    by (simp add: rval_def u_def power_int_diff power_int_add)
qed

lemma rval_above:
  assumes "2 powi (- 126) \<le> m"
  shows "2 powi (expo m) \<le> rval m"
proof -
  define u :: real where "u = 2 powi (expo m - 23)"
  have u: "0 < u" by (simp add: u_def)
  have "2 ^ 23 * u = 2 powi (expo m)" by (simp add: u_def power_int_diff)
  also have "\<dots> \<le> m" using assms by (rule expo_le)
  finally have "of_int (2 ^ 23) \<le> m / u" using u by (simp add: field_simps)
  then have "round_even (of_int (2 ^ 23)) \<le> round_even (m / u)"
    by (rule round_even_mono)
  then have "2 ^ 23 \<le> round_even (m / u)"
    by (simp only: round_even_int)
  then have "2 ^ 23 * u \<le> of_int (round_even (m / u)) * u"
    using u by (intro mult_right_mono) (simp_all add: of_int_le_iff [symmetric] del: of_int_le_iff)
  then show ?thesis
    by (simp add: rval_def u_def power_int_diff)
qed

lemma rval_mono:
  assumes "0 \<le> m" "m \<le> m'"
  shows "rval m \<le> rval m'"
proof (cases "expo m = expo m'")
  case True
  have "round_even (m / 2 powi (expo m' - 23)) \<le> round_even (m' / 2 powi (expo m' - 23))"
    using assms(2) by (intro round_even_mono divide_right_mono) simp_all
  then show ?thesis
    by (simp add: rval_def True)
next
  case False
  with expo_mono [OF assms(2)] have lt: "expo m < expo m'" by simp
  then have "expo m \<noteq> 127" using expo_bounds(2) [of m'] by simp
  then have "m < 2 ^ 127" using expo_top [of m] by force
  then have "rval m \<le> 2 powi (expo m + 1)"
    using assms(1) by (intro rval_below) simp_all
  also have "\<dots> \<le> 2 powi (expo m')"
    using lt by (intro powi_mono) simp
  also have "\<dots> \<le> rval m'"
  proof (rule rval_above)
    from lt expo_bounds(1) [of m] have "expo m' \<noteq> - 126" by simp
    then show "2 powi (- 126) \<le> m'" using expo_small [of m'] by force
  qed
  finally show ?thesis .
qed

lemma sqrt_bits_spec:
  assumes "0 \<le> r" "r * r \<le> t" "t < (r + 2 ^ k) * (r + 2 ^ k)"
  shows "0 \<le> sqrt_bits k r t \<and> sqrt_bits k r t * sqrt_bits k r t \<le> t \<and>
         t < (sqrt_bits k r t + 1) * (sqrt_bits k r t + 1)"
  using assms
proof (induction k arbitrary: r)
  case 0
  then show ?case by simp
next
  case (Suc k)
  show ?case
  proof (cases "(r + 2 ^ k) * (r + 2 ^ k) \<le> t")
    case True
    have "0 \<le> r + 2 ^ k" using Suc.prems(1) by simp
    moreover have "t < (r + 2 ^ k + 2 ^ k) * (r + 2 ^ k + 2 ^ k)"
      using Suc.prems(3) by (simp add: algebra_simps)
    ultimately show ?thesis
      using Suc.IH [of "r + 2 ^ k"] True by simp
  next
    case False
    then show ?thesis
      using Suc.IH [of r] Suc.prems by simp
  qed
qed

lemma round_even_sqrt:
  assumes n: "0 \<le> n" "n * n \<le> \<lfloor>t\<rfloor>" "\<lfloor>t\<rfloor> < (n + 1) * (n + 1)"
  shows "round_even (sqrt t) =
         (if t < (of_int n + 1 / 2) * (of_int n + 1 / 2) then n
          else if (of_int n + 1 / 2) * (of_int n + 1 / 2) < t then n + 1
          else if even n then n else n + 1)"
proof -
  have lo: "(of_int n)\<^sup>2 \<le> t"
  proof -
    have "of_int (n * n) \<le> (of_int \<lfloor>t\<rfloor> :: real)" using n(2) by (simp only: of_int_le_iff)
    also have "\<dots> \<le> t" by simp
    finally show ?thesis by (simp add: power2_eq_square)
  qed
  have hi: "t < (of_int n + 1)\<^sup>2"
  proof -
    have "\<lfloor>t\<rfloor> + 1 \<le> (n + 1) * (n + 1)" using n(3) by simp
    then have "(of_int (\<lfloor>t\<rfloor> + 1) :: real) \<le> of_int ((n + 1) * (n + 1))"
      by (simp only: of_int_le_iff)
    then have A: "of_int \<lfloor>t\<rfloor> + 1 \<le> (of_int n + 1) * (of_int n + 1 :: real)"
      by simp
    have B: "t < of_int \<lfloor>t\<rfloor> + 1" by linarith
    from A B show ?thesis unfolding power2_eq_square by linarith
  qed
  have t0: "0 \<le> t" using lo zero_le_power2 [of "of_int n :: real"] by linarith
  have "of_int n \<le> sqrt t"
    using lo by (rule real_le_rsqrt)
  moreover have "sqrt t < of_int n + 1"
    using t0 n(1) hi by (intro real_less_lsqrt) simp_all
  ultimately have fl: "\<lfloor>sqrt t\<rfloor> = n"
    by (intro floor_unique) simp_all
  have h0: "(0::real) \<le> of_int n + 1 / 2" using n(1) by simp
  have a: "sqrt t - of_int n < 1 / 2 \<longleftrightarrow> t < (of_int n + 1 / 2) * (of_int n + 1 / 2)"
  proof
    assume "sqrt t - of_int n < 1 / 2"
    then have "sqrt t < of_int n + 1 / 2" by simp
    then have "(sqrt t)\<^sup>2 < (of_int n + 1 / 2)\<^sup>2"
      using t0 by (intro power_strict_mono) simp_all
    then show "t < (of_int n + 1 / 2) * (of_int n + 1 / 2)"
      using t0 by (simp add: power2_eq_square)
  next
    assume "t < (of_int n + 1 / 2) * (of_int n + 1 / 2)"
    then have "sqrt t < of_int n + 1 / 2"
      using t0 h0 by (intro real_less_lsqrt) (simp_all add: power2_eq_square)
    then show "sqrt t - of_int n < 1 / 2" by simp
  qed
  have b: "1 / 2 < sqrt t - of_int n \<longleftrightarrow> (of_int n + 1 / 2) * (of_int n + 1 / 2) < t"
  proof
    assume "1 / 2 < sqrt t - of_int n"
    then have "of_int n + 1 / 2 < sqrt t" by simp
    then have "(of_int n + 1 / 2)\<^sup>2 < (sqrt t)\<^sup>2"
      using h0 by (intro power_strict_mono) simp_all
    then show "(of_int n + 1 / 2) * (of_int n + 1 / 2) < t"
      using t0 by (simp add: power2_eq_square)
  next
    assume "(of_int n + 1 / 2) * (of_int n + 1 / 2) < t"
    then have "of_int n + 1 / 2 < sqrt t"
      using h0 by (intro real_less_rsqrt) (simp_all add: power2_eq_square)
    then show "1 / 2 < sqrt t - of_int n" by simp
  qed
  show ?thesis
    unfolding round_even_def Let_def fl a b by simp
qed

lemma powi_double: "(2::real) powi (2 * e) = 2 powi e * 2 powi e"
  using power_int_add [of "2::real" e e] by simp

lemma sqrt_rnd_eq:
  assumes "2 powi (- 149) \<le> m" "m < 2 ^ 128"
  shows "sqrt_rnd m = Fin False (rval (sqrt m))"
proof -
  define e2 where "e2 = expo_up 276 (- 149) (2 powi (- 149)) m"
  define e where "e = e2 div 2"
  define u :: real where "u = 2 powi (e - 23)"
  define t where "t = m / (u * u)"
  define n where "n = sqrt_bits 24 0 \<lfloor>t\<rfloor>"
  have "(0::real) < 2 powi (- 149)" by simp
  with assms(1) have m0: "0 < m" by linarith
  have u: "0 < u" by (simp add: u_def)
  have spec: "- 149 \<le> e2" "e2 \<le> 127" "2 powi e2 \<le> m" "m < 2 powi (e2 + 1)"
    using expo_up_spec [of "2 powi (- 149)" "- 149" 276 m] assms
    by (simp_all add: e2_def)
  have e_rng: "- 75 \<le> e" "e \<le> 63" "2 * e \<le> e2" "e2 + 1 \<le> 2 * (e + 1)"
    using spec(1,2) by (simp_all add: e_def) 
  have "(2 powi e)\<^sup>2 = (2::real) powi (2 * e)"
    by (simp add: powi_double power2_eq_square)
  also have "\<dots> \<le> 2 powi e2" using e_rng(3) by (rule powi_mono)
  also have "\<dots> \<le> m" by (rule spec(3))
  finally have lo: "2 powi e \<le> sqrt m" by (rule real_le_rsqrt)
  have "m < 2 powi (e2 + 1)" by (rule spec(4))
  also have "\<dots> \<le> 2 powi (2 * (e + 1))" using e_rng(4) by (rule powi_mono)
  also have "\<dots> = (2 powi (e + 1))\<^sup>2"
    by (simp only: powi_double power2_eq_square)
  finally have hi: "sqrt m < 2 powi (e + 1)"
    using m0 by (intro real_less_lsqrt) simp_all
  have ex: "expo (sqrt m) = e"
    using lo hi e_rng(1,2) by (intro expo_unique) simp_all
  have st: "sqrt t = sqrt m / u"
    using u by (simp add: t_def real_sqrt_divide real_sqrt_mult)
  have "2 ^ 23 * u = 2 powi e" by (simp add: u_def power_int_diff)
  with lo have "2 ^ 23 \<le> sqrt t" using u by (simp add: st field_simps)
  have "2 ^ 24 * u = 2 powi (e + 1)" by (simp add: u_def power_int_diff power_int_add)
  with hi have "sqrt t < 2 ^ 24" using u by (simp add: st field_simps)
  have t0: "0 \<le> t" using m0 u by (simp add: t_def)
  have "t < (2 ^ 24)\<^sup>2"
    using \<open>sqrt t < 2 ^ 24\<close> t0
    by (metis real_sqrt_less_iff real_sqrt_abs abs_of_nonneg zero_le_numeral zero_le_power)
  then have "t < of_int (2 ^ 48)" by simp
  then have "\<lfloor>t\<rfloor> < 2 ^ 48" by (simp only: floor_less_iff)
  moreover have "0 \<le> \<lfloor>t\<rfloor>" using t0 by simp
  ultimately have "0 \<le> n \<and> n * n \<le> \<lfloor>t\<rfloor> \<and> \<lfloor>t\<rfloor> < (n + 1) * (n + 1)"
    unfolding n_def by (intro sqrt_bits_spec) simp_all
  then have re: "round_even (sqrt t) =
         (if t < (of_int n + 1 / 2) * (of_int n + 1 / 2) then n
          else if (of_int n + 1 / 2) * (of_int n + 1 / 2) < t then n + 1
          else if even n then n else n + 1)"
    by (intro round_even_sqrt) simp_all
  have "sqrt_rnd m = Fin False (of_int (round_even (sqrt t)) * u)"
    unfolding sqrt_rnd_def Let_def re
    by (simp only: e2_def [symmetric] e_def [symmetric] u_def [symmetric] t_def [symmetric]
        n_def [symmetric])
  also have "\<dots> = Fin False (rval (sqrt m))"
    by (simp add: rval_def ex st u_def)
  finally show ?thesis .
qed

section \<open>The cosine of the angle\<close>

lemma is_f32_Fin: "is_f32 (Fin s m) \<longleftrightarrow> 0 \<le> m \<and> rnd s m = Fin s m"
  by (simp add: is_f32_def)

lemma is_f32_wf: "is_f32 x \<Longrightarrow> wf x"
  by (cases x) (simp_all add: is_f32_Fin)

lemma rnd_not_nan: "rnd s m \<noteq> NaN"
  by (simp add: rnd_rval)

lemma rnd_finite: "isfinite (rnd s m) \<Longrightarrow> rnd s m = Fin s (rval m) \<and> rval m < 2 ^ 128"
  by (simp add: rnd_rval split: if_splits)


lemma isfinite_fadd: "isfinite (fadd x y) \<Longrightarrow> isfinite x \<and> isfinite y"
  by (cases x; cases y) (simp_all split: if_splits)

lemma isfinite_fmul: "isfinite (fmul x y) \<Longrightarrow> isfinite x \<and> isfinite y"
  by (cases x; cases y) (simp_all split: if_splits)

lemma isfinite_sqrtf: "isfinite (sqrtf x) \<Longrightarrow> isfinite x"
  by (cases x) (simp_all split: if_splits)

lemma isfinite_Fin: "isfinite x \<Longrightarrow> \<exists>s m. x = Fin s m"
  by (cases x) simp_all

lemma rval_zero: "rval 0 = 0"
  by (simp add: rval_def round_even_def)

lemma fadd_pos:
  assumes "0 \<le> p" "0 \<le> q"
  shows "fadd (Fin False p) (Fin False q) = rnd False (p + q)"
proof (cases "p + q = 0")
  case True
  then show ?thesis by (simp add: rnd_rval rval_zero)
next
  case False
  moreover have "0 \<le> p + q" using assms by simp
  ultimately show ?thesis by (simp add: Let_def)
qed

lemma fadd_not_nan: "\<not> isnan x \<Longrightarrow> \<not> isnan (fadd x (Fin t n))"
  by (cases x) (simp_all add: Let_def rnd_rval)

lemma fdiv_not_nan: "\<not> isnan x \<Longrightarrow> p \<noteq> 0 \<Longrightarrow> \<not> isnan (fdiv x (Fin t p))"
  by (cases x) (simp_all add: rnd_rval)

lemma clampf_in_unit: "\<not> isnan x \<Longrightarrow> in_unit (clampf x (Fin True 1) (Fin False 1))"
  by (cases x) (auto simp: clampf_def in_unit_def fgt_def)

lemma rval_grid:
  assumes "0 < rval m"
  shows "2 powi (- 149) \<le> rval m"
proof -
  define N where "N = round_even (m / 2 powi (expo m - 23))"
  define u :: real where "u = 2 powi (expo m - 23)"
  have r: "rval m = of_int N * u" by (simp add: rval_def N_def u_def)
  have u: "0 < u" by (simp add: u_def)
  from assms r u have "0 < (of_int N :: real)" by (simp add: zero_less_mult_iff)
  then have "1 \<le> N" by simp
  then have "(1::real) \<le> of_int N" by simp
  then have le: "u \<le> of_int N * u" using u by simp
  have "2 powi (- 149) \<le> u"
    unfolding u_def using expo_bounds(1) [of m] by (intro powi_mono) simp
  also note le
  also have "of_int N * u = rval m" by (simp only: r)
  finally show ?thesis .
qed

lemma rval_top:
  assumes "0 \<le> m" "rval m < 2 ^ 128"
  shows "rval m \<le> 2 ^ 128 - 2 ^ 104"
proof (cases "m < 2 ^ 127")
  case True
  have e: "expo m \<le> 126"
  proof (cases "m < 2 powi (- 126)")
    case True
    then show ?thesis by (simp add: expo_small)
  next
    case False
    then have "2 powi (expo m) \<le> m" by (intro expo_le) simp
    with \<open>m < 2 ^ 127\<close> have "2 powi (expo m) < (2::real) powi 127" by simp
    then show ?thesis by (simp only: powi_less_iff)
  qed
  from True have "rval m \<le> 2 powi (expo m + 1)"
    using assms(1) by (intro rval_below) simp_all
  also have "\<dots> \<le> (2::real) powi 127"
    using e by (intro powi_mono) simp
  finally show ?thesis by simp
next
  case False
  then have e: "expo m = 127" by (intro expo_top) simp
  define N where "N = round_even (m / 2 powi (expo m - 23))"
  have r: "rval m = of_int N * 2 ^ 104" by (simp add: rval_def N_def e)
  with assms(2) have "of_int N < (of_int (2 ^ 24) :: real)" by simp
  then have "N < 2 ^ 24" by (simp only: of_int_less_iff)
  then have "N \<le> 2 ^ 24 - 1" by simp
  then have "(of_int N :: real) \<le> of_int (2 ^ 24 - 1)" by (simp only: of_int_le_iff)
  then show ?thesis using r by simp
qed

lemma length3_finite:
  assumes "0 \<le> m1" "0 \<le> m2" "0 \<le> m3"
    and fin: "isfinite (length3 (Fin s1 m1, Fin s2 m2, Fin s3 m3))"
  shows "rval (m1 * m1) < 2 ^ 128 \<and> rval (m2 * m2) < 2 ^ 128 \<and> rval (m3 * m3) < 2 ^ 128 \<and>
         sumsq m1 m2 m3 < 2 ^ 128 \<and>
         length3 (Fin s1 m1, Fin s2 m2, Fin s3 m3) = sqrtf (Fin False (sumsq m1 m2 m3))"
proof -
  let ?X = "rnd False (m1 * m1)" and ?Y = "rnd False (m2 * m2)" and ?Z = "rnd False (m3 * m3)"
  have l: "length3 (Fin s1 m1, Fin s2 m2, Fin s3 m3) = sqrtf (fadd (fadd ?X ?Y) ?Z)"
    by (simp add: length3.simps)
  from fin have f2: "isfinite (fadd (fadd ?X ?Y) ?Z)"
    unfolding l by (rule isfinite_sqrtf)
  then have f1: "isfinite (fadd ?X ?Y)" and fz: "isfinite ?Z"
    using isfinite_fadd by blast+
  then have fx: "isfinite ?X" and fy: "isfinite ?Y"
    using isfinite_fadd by blast+
  note X = rnd_finite [OF fx] and Y = rnd_finite [OF fy] and Z = rnd_finite [OF fz]
  have a1: "fadd ?X ?Y = rnd False (rval (m1 * m1) + rval (m2 * m2))"
    unfolding X [THEN conjunct1] Y [THEN conjunct1]
    by (intro fadd_pos rval_nonneg) simp_all
  note W = rnd_finite [OF f1 [unfolded a1]]
  have a2: "fadd (fadd ?X ?Y) ?Z = rnd False (rval (rval (m1 * m1) + rval (m2 * m2)) + rval (m3 * m3))"
    unfolding a1 W [THEN conjunct1] Z [THEN conjunct1]
    by (intro fadd_pos rval_nonneg add_nonneg_nonneg) simp_all
  note Q = rnd_finite [OF f2 [unfolded a2]]
  show ?thesis
    unfolding l a2 Q [THEN conjunct1] sumsq_def using X Y Z Q by simp
qed

lemma sumsq_nonneg: "0 \<le> sumsq m1 m2 m3"
  unfolding sumsq_def by (intro rval_nonneg add_nonneg_nonneg) simp_all

lemma sumsq_grid: "sumsq m1 m2 m3 \<noteq> 0 \<Longrightarrow> 2 powi (- 149) \<le> sumsq m1 m2 m3"
  using sumsq_nonneg [of m1 m2 m3] unfolding sumsq_def by (intro rval_grid) simp

lemma sumsq_top: "sumsq m1 m2 m3 < 2 ^ 128 \<Longrightarrow> sumsq m1 m2 m3 \<le> 2 ^ 128 - 2 ^ 104"
  unfolding sumsq_def by (intro rval_top add_nonneg_nonneg rval_nonneg) simp_all

lemma rval_sqrt_max: "rval (sqrt (2 ^ 128 - 2 ^ 104)) = 2 ^ 64 - 2 ^ 40"
proof -
  have "Fin False (rval (sqrt (2 ^ 128 - 2 ^ 104))) = sqrt_rnd (2 ^ 128 - 2 ^ 104)"
    by (rule sqrt_rnd_eq [symmetric]) simp_all
  also have "\<dots> = Fin False (2 ^ 64 - 2 ^ 40)"
    by (simp add: f32_eval)
  finally show ?thesis by simp
qed

lemma rval_sqrt_min: "rval (sqrt (2 powi (- 149))) = 11863283 / 2 ^ 98"
proof -
  have "Fin False (rval (sqrt (2 powi (- 149)))) = sqrt_rnd (2 powi (- 149))"
    by (rule sqrt_rnd_eq [symmetric]) simp_all
  also have "\<dots> = Fin False (11863283 / 2 ^ 98)"
    by (simp add: f32_eval)
  finally show ?thesis by simp
qed

lemma sqrtf_bounds:
  assumes "2 powi (- 149) \<le> q" "q \<le> 2 ^ 128 - 2 ^ 104"
  shows "sqrtf (Fin False q) = Fin False (rval (sqrt q))"
    and "11863283 / 2 ^ 98 \<le> rval (sqrt q)"
    and "rval (sqrt q) \<le> 2 ^ 64 - 2 ^ 40"
proof -
  have "(0::real) < 2 powi (- 149)" by simp
  with assms(1) have q0: "0 < q" by linarith
  have "q < 2 ^ 128" using assms(2) by simp
  with q0 assms(1) show "sqrtf (Fin False q) = Fin False (rval (sqrt q))"
    by (simp add: sqrt_rnd_eq)
  have "rval (sqrt (2 powi (- 149))) \<le> rval (sqrt q)"
    using assms(1) by (intro rval_mono) simp_all
  then show "11863283 / 2 ^ 98 \<le> rval (sqrt q)"
    by (simp only: rval_sqrt_min)
  have "rval (sqrt q) \<le> rval (sqrt (2 ^ 128 - 2 ^ 104))"
    using assms(2) q0 by (intro rval_mono) simp_all
  then show "rval (sqrt q) \<le> 2 ^ 64 - 2 ^ 40"
    by (simp only: rval_sqrt_max)
qed

lemmas rval_eval = rval_def expo_def expo_up_num round_even_def Let_def

lemma rval_min_sq: "rval (11863283 / 2 ^ 98 * (11863283 / 2 ^ 98)) = 1 / 2 ^ 149"
  by (simp add: rval_eval)

lemma rval_max_sq: "rval ((2 ^ 64 - 2 ^ 40) * (2 ^ 64 - 2 ^ 40)) = 2 ^ 128 - 2 ^ 105"
  by (simp add: rval_eval)

lemma fmul_lengths:
  assumes "11863283 / 2 ^ 98 \<le> la" "la \<le> 2 ^ 64 - 2 ^ 40"
    and "11863283 / 2 ^ 98 \<le> lb" "lb \<le> 2 ^ 64 - 2 ^ 40"
  shows "fmul (Fin False la) (Fin False lb) = Fin False (rval (la * lb)) \<and> 0 < rval (la * lb)"
proof -
  have la0: "0 \<le> la" and lb0: "0 \<le> lb" using assms(1,3) by simp_all
  have "rval (la * lb) \<le> rval ((2 ^ 64 - 2 ^ 40) * (2 ^ 64 - 2 ^ 40))"
    using assms la0 lb0 by (intro rval_mono mult_mono mult_nonneg_nonneg) simp_all
  then have hi: "rval (la * lb) < 2 ^ 128"
    by (simp only: rval_max_sq) simp
  have "rval (11863283 / 2 ^ 98 * (11863283 / 2 ^ 98)) \<le> rval (la * lb)"
    using assms la0 lb0 by (intro rval_mono mult_mono) simp_all
  then have lo: "0 < rval (la * lb)"
    by (simp only: rval_min_sq) simp
  from hi lo show ?thesis by (simp add: rnd_rval)
qed

lemma fmul_finite:
  assumes "0 \<le> m" "0 \<le> n" "rval (m * m) < 2 ^ 128" "rval (n * n) < 2 ^ 128"
  shows "fmul (Fin s m) (Fin t n) = Fin (s \<noteq> t) (rval (m * n))"
proof -
  have "rval (m * n) < 2 ^ 128"
  proof (cases "m \<le> n")
    case True
    have "rval (m * n) \<le> rval (n * n)"
      using assms(1,2) True by (intro rval_mono mult_right_mono) simp_all
    with assms(4) show ?thesis by simp
  next
    case False
    have "rval (m * n) \<le> rval (m * m)"
      using assms(1,2) False by (intro rval_mono mult_left_mono) simp_all
    with assms(3) show ?thesis by simp
  qed
  then show ?thesis by (simp add: rnd_rval)
qed

lemma length3_good:
  assumes "f32_vec A" "isfinite (length3 A)" "\<not> feq (length3 A) (Fin False 0)"
  obtains s1 m1 s2 m2 s3 m3 L where
    "A = (Fin s1 m1, Fin s2 m2, Fin s3 m3)" "0 \<le> m1" "0 \<le> m2" "0 \<le> m3"
    "rval (m1 * m1) < 2 ^ 128" "rval (m2 * m2) < 2 ^ 128" "rval (m3 * m3) < 2 ^ 128"
    "length3 A = Fin False L" "11863283 / 2 ^ 98 \<le> L" "L \<le> 2 ^ 64 - 2 ^ 40"
proof -
  obtain x y z where A: "A = (x, y, z)" by (cases A) auto
  have "isfinite (fadd (fadd (fmul x x) (fmul y y)) (fmul z z))"
    using assms(2) unfolding A length3.simps by (rule isfinite_sqrtf)
  then have "isfinite (fmul x x)" "isfinite (fmul y y)" "isfinite (fmul z z)"
    using isfinite_fadd by blast+
  then have fin: "isfinite x" "isfinite y" "isfinite z"
    using isfinite_fmul by blast+
  obtain s1 m1 where x: "x = Fin s1 m1" using fin(1) by (cases x) simp_all
  obtain s2 m2 where y: "y = Fin s2 m2" using fin(2) by (cases y) simp_all
  obtain s3 m3 where z: "z = Fin s3 m3" using fin(3) by (cases z) simp_all
  note xyz = x y z
  have "wf x" "wf y" "wf z"
    using assms(1) unfolding A f32_vec.simps by (simp_all add: is_f32_wf)
  then have m: "0 \<le> m1" "0 \<le> m2" "0 \<le> m3"
    unfolding xyz by simp_all
  note F = length3_finite [OF m assms(2) [unfolded A xyz]]
  define q where "q = sumsq m1 m2 m3"
  have len: "length3 A = sqrtf (Fin False q)"
    using F by (simp add: A xyz q_def)
  have "q \<noteq> 0"
    using assms(3) unfolding len by auto
  then have lo: "2 powi (- 149) \<le> q" unfolding q_def by (rule sumsq_grid)
  have hi: "q \<le> 2 ^ 128 - 2 ^ 104" unfolding q_def using F by (intro sumsq_top) simp
  note S = sqrtf_bounds [OF lo hi]
  have A': "A = (Fin s1 m1, Fin s2 m2, Fin s3 m3)"
    by (simp only: A xyz)
  have r: "rval (m1 * m1) < 2 ^ 128" "rval (m2 * m2) < 2 ^ 128" "rval (m3 * m3) < 2 ^ 128"
    using F by blast+
  have len': "length3 A = Fin False (rval (sqrt q))"
    by (simp only: len S(1))
  show thesis
    by (rule that [OF A' m r len' S(2,3)])
qed

lemma angle_quotient_not_nan:
  assumes "f32_vec A" "isfinite (length3 A)" "\<not> feq (length3 A) (Fin False 0)"
    and "f32_vec B" "isfinite (length3 B)" "\<not> feq (length3 B) (Fin False 0)"
  shows "\<not> isnan (fdiv (dot3 A B) (fmul (length3 A) (length3 B)))"
proof -
  obtain s1 m1 s2 m2 s3 m3 La where
    A: "A = (Fin s1 m1, Fin s2 m2, Fin s3 m3)" and m: "0 \<le> m1" "0 \<le> m2" "0 \<le> m3"
    and rm: "rval (m1 * m1) < 2 ^ 128" "rval (m2 * m2) < 2 ^ 128" "rval (m3 * m3) < 2 ^ 128"
    and la: "length3 A = Fin False La" "11863283 / 2 ^ 98 \<le> La" "La \<le> 2 ^ 64 - 2 ^ 40"
    using length3_good [OF assms(1-3)] .
  obtain t1 n1 t2 n2 t3 n3 Lb where
    B: "B = (Fin t1 n1, Fin t2 n2, Fin t3 n3)" and n: "0 \<le> n1" "0 \<le> n2" "0 \<le> n3"
    and rn: "rval (n1 * n1) < 2 ^ 128" "rval (n2 * n2) < 2 ^ 128" "rval (n3 * n3) < 2 ^ 128"
    and lb: "length3 B = Fin False Lb" "11863283 / 2 ^ 98 \<le> Lb" "Lb \<le> 2 ^ 64 - 2 ^ 40"
    using length3_good [OF assms(4-6)] .
  have p: "fmul (length3 A) (length3 B) = Fin False (rval (La * Lb))" "rval (La * Lb) \<noteq> 0"
    using fmul_lengths [OF la(2,3) lb(2,3)] by (simp_all add: la(1) lb(1))
  have d: "dot3 A B =
      fadd (fadd (Fin (s1 \<noteq> t1) (rval (m1 * n1))) (Fin (s2 \<noteq> t2) (rval (m2 * n2))))
           (Fin (s3 \<noteq> t3) (rval (m3 * n3)))"
    unfolding A B dot3.simps
    by (simp only: fmul_finite [OF m(1) n(1) rm(1) rn(1)] fmul_finite [OF m(2) n(2) rm(2) rn(2)]
        fmul_finite [OF m(3) n(3) rm(3) rn(3)])
  have "\<not> isnan (dot3 A B)"
    unfolding d by (intro fadd_not_nan) simp
  then show ?thesis
    unfolding p(1) using p(2) by (rule fdiv_not_nan)
qed

lemma v3_dot_product_vec:
  "a \<noteq> 0 \<Longrightarrow> b \<noteq> 0 \<Longrightarrow> v3_dot_product s a b = (dot3 (vec s a) (vec s b), s)"
  by (simp add: v3_dot_product_def v3_valid_ptr3_def vec_def dot3.simps)

lemma v3_angle_quick_vec:
  assumes "a \<noteq> 0" "b \<noteq> 0"
    and "isfinite (length3 (vec s a))" "\<not> feq (length3 (vec s a)) (Fin False 0)"
    and "isfinite (length3 (vec s b))" "\<not> feq (length3 (vec s b)) (Fin False 0)"
  shows "v3_angle_quick s a b =
         (clampf (fdiv (dot3 (vec s a) (vec s b)) (fmul (length3 (vec s a)) (length3 (vec s b))))
            (Fin True 1) (Fin False 1), s)"
  using assms
  by (simp add: v3_angle_quick_def v3_valid_ptr3_def v3_length_vec v3_dot_product_vec)

text \<open>
  C5, as the code has it. When the lengths that \<^verbatim>\<open>v3_length\<close> computes for both vectors
  are finite and not zero, \<^verbatim>\<open>v3_angle_quick\<close> prints no diagnostic and returns a value
  between \<open>-1\<close> and \<open>1\<close>: the computed lengths are at least \<open>11863283 / 2^98\<close> and at
  most \<open>2^64 - 2^40\<close>, so their product neither underflows to zero nor overflows, the dot
  product is a number or an infinity, and the quotient is not a NaN.
\<close>

theorem angle_quick_bounds:
  assumes "a \<noteq> 0" "b \<noteq> 0" "f32_vec (vec s a)" "f32_vec (vec s b)"
    and "isfinite (fst (v3_length s a))" "\<not> feq (fst (v3_length s a)) (Fin False 0)"
    and "isfinite (fst (v3_length s b))" "\<not> feq (fst (v3_length s b)) (Fin False 0)"
  shows "in_unit (fst (v3_angle_quick s a b)) \<and> err (snd (v3_angle_quick s a b)) = err s"
proof -
  have l: "isfinite (length3 (vec s a))" "\<not> feq (length3 (vec s a)) (Fin False 0)"
      "isfinite (length3 (vec s b))" "\<not> feq (length3 (vec s b)) (Fin False 0)"
    using assms by (simp_all add: v3_length_vec)
  have "\<not> isnan (fdiv (dot3 (vec s a) (vec s b)) (fmul (length3 (vec s a)) (length3 (vec s b))))"
    using assms(3) l(1,2) assms(4) l(3,4) by (rule angle_quotient_not_nan)
  then show ?thesis
    unfolding v3_angle_quick_vec [OF assms(1,2) l] by (simp add: clampf_in_unit)
qed

section \<open>Overflow and underflow of the squares\<close>

lemma vec_state_of3: "vec (state_of (x # y # z # xs)) 1 = (x, y, z)"
  by (simp add: vec_def rd_state_of)

lemma vec_state_of6: "vec (state_of (a # b # c # x # y # z # xs)) 4 = (x, y, z)"
  by (simp add: vec_def rd_state_of)

lemma len_big: "length3 (Fin False (2 ^ 64), Fin False 0, Fin False 0) = Infty False"
  by (simp add: length3.simps f32_eval)

lemma len_unit_x: "length3 (Fin False 1, Fin False 0, Fin False 0) = Fin False 1"
  by (simp add: length3.simps f32_eval)

lemma len_unit_y: "length3 (Fin False 0, Fin False 1, Fin False 0) = Fin False 1"
  by (simp add: length3.simps f32_eval)

lemma is_f32_vals:
  "is_f32 (Fin False 0)" "is_f32 (Fin False 1)" "is_f32 (Fin False (2 ^ 64))"
  "is_f32 (Fin False (2 ^ 63))" "is_f32 (Fin False (7 / 2 ^ 77))" "is_f32 (Fin False 2)"
  unfolding is_f32_Fin by (simp_all add: f32_eval)

lemma addr_nz: "(1::nat) \<noteq> 0" "(4::nat) \<noteq> 0" "(7::nat) \<noteq> 0" "(10::nat) \<noteq> 0"
  by simp_all

theorem angle_quick_bounds_witness:
  "in_unit (fst (v3_angle_quick
     (state_of [Fin False 1, Fin False 0, Fin False 0, Fin False 0, Fin False 1, Fin False 0]) 1 4))"
proof -
  let ?s = "state_of [Fin False 1, Fin False 0, Fin False 0, Fin False 0, Fin False 1, Fin False 0]"
  have a: "f32_vec (vec ?s 1)" "f32_vec (vec ?s 4)"
    by (simp_all only: vec_state_of3 vec_state_of6 f32_vec.simps is_f32_vals)
  have la: "fst (v3_length ?s 1) = Fin False 1"
    by (simp only: v3_length_vec [OF addr_nz(1)] vec_state_of3 len_unit_x fst_conv)
  have lb: "fst (v3_length ?s 4) = Fin False 1"
    by (simp only: v3_length_vec [OF addr_nz(2)] vec_state_of6 len_unit_y fst_conv)
  have h: "isfinite (fst (v3_length ?s 1))" "\<not> feq (fst (v3_length ?s 1)) (Fin False 0)"
      "isfinite (fst (v3_length ?s 4))" "\<not> feq (fst (v3_length ?s 4)) (Fin False 0)"
    unfolding la lb by simp_all
  have "in_unit (fst (v3_angle_quick ?s 1 4)) \<and> err (snd (v3_angle_quick ?s 1 4)) = err ?s"
    by (rule angle_quick_bounds [OF addr_nz(1,2) a h])
  then show ?thesis by simp
qed

text \<open>
  C5 as stated fails: \<open>(2^64, 0, 0)\<close> has finite components and a length that is not
  zero, but its square overflows, the computed length is infinite, and
  \<^verbatim>\<open>v3_angle_quick\<close> returns a NaN.
\<close>

theorem angle_quick_overflow:
  "finite3 (vec (state_of [Fin False (2 ^ 64), Fin False 0, Fin False 0,
                           Fin False 1, Fin False 0, Fin False 0]) 1) \<and>
   f32_vec (vec (state_of [Fin False (2 ^ 64), Fin False 0, Fin False 0,
                           Fin False 1, Fin False 0, Fin False 0]) 1) \<and>
   norm3 (vec (state_of [Fin False (2 ^ 64), Fin False 0, Fin False 0,
                         Fin False 1, Fin False 0, Fin False 0]) 1) \<noteq> 0 \<and>
   finite3 (vec (state_of [Fin False (2 ^ 64), Fin False 0, Fin False 0,
                           Fin False 1, Fin False 0, Fin False 0]) 4) \<and>
   f32_vec (vec (state_of [Fin False (2 ^ 64), Fin False 0, Fin False 0,
                           Fin False 1, Fin False 0, Fin False 0]) 4) \<and>
   norm3 (vec (state_of [Fin False (2 ^ 64), Fin False 0, Fin False 0,
                         Fin False 1, Fin False 0, Fin False 0]) 4) \<noteq> 0 \<and>
   \<not> in_unit (fst (v3_angle_quick
       (state_of [Fin False (2 ^ 64), Fin False 0, Fin False 0,
                  Fin False 1, Fin False 0, Fin False 0]) 1 4))"
proof -
  let ?s = "state_of [Fin False (2 ^ 64), Fin False 0, Fin False 0,
                      Fin False 1, Fin False 0, Fin False 0]"
  have la: "v3_length ?s 1 = (Infty False, ?s)"
    by (simp only: v3_length_vec [OF addr_nz(1)] vec_state_of3 len_big)
  have "fst (v3_angle_quick ?s 1 4) = NaN"
    unfolding v3_angle_quick_def la by (simp add: v3_valid_ptr3_def split: prod.splits)
  then have n: "\<not> in_unit (fst (v3_angle_quick ?s 1 4))"
    by (simp add: in_unit_def)
  have a: "f32_vec (vec ?s 1)" "f32_vec (vec ?s 4)"
    by (simp_all only: vec_state_of3 vec_state_of6 f32_vec.simps is_f32_vals)
  have b: "finite3 (vec ?s 1)" "finite3 (vec ?s 4)"
    by (simp_all only: vec_state_of3 vec_state_of6 finite3.simps isfinite.simps)
  have c: "norm3 (vec ?s 1) \<noteq> 0" "norm3 (vec ?s 4) \<noteq> 0"
    unfolding vec_state_of3 vec_state_of6 by simp_all
  from a b c n show ?thesis by blast
qed


lemma v3_scale_vec:
  "dst \<noteq> 0 \<Longrightarrow>
   vec (v3_scale s dst k) dst = (fmul (rd s dst 0) k, fmul (rd s dst (Suc 0)) k, fmul (rd s dst 2) k)"
  by (simp add: v3_scale_def v3_valid_ptr3_def Let_def vec_def rd_wr)

lemma v3_scale_other: "disjoint dst q \<Longrightarrow> vec (v3_scale s dst k) q = vec s q"
  by (auto simp: v3_scale_def Let_def vec_def rd_wr rd_error disjoint_def)

lemma norm_tiny:
  "normalize3 (Fin False (7 / 2 ^ 77), Fin False 0, Fin False 0) =
     (Fin False (7 / 8), Fin False 0, Fin False 0)"
  by (simp add: normalize3.simps length3.simps f32_eval)

lemma len_tiny: "length3 (Fin False (7 / 2 ^ 77), Fin False 0, Fin False 0) = Fin False (1 / 2 ^ 74)"
  by (simp add: length3.simps f32_eval)

lemma len_seven_eighths: "length3 (Fin False (7 / 8), Fin False 0, Fin False 0) = Fin False (7 / 8)"
  by (simp add: length3.simps f32_eval)

text \<open>
  C6 as stated fails: for \<open>(7 / 2^77, 0, 0)\<close> the square \<open>49 / 2^154\<close> is subnormal and rounds
  to \<open>2^-148\<close>, the computed length is \<open>2^-74\<close>, finite and not zero, the normalised vector
  is \<open>(7/8, 0, 0)\<close> and its length is \<open>7/8\<close>.
\<close>

theorem normalize_length_underflow:
  "finite3 (vec (state_of [Fin False (7 / 2 ^ 77), Fin False 0, Fin False 0]) 1) \<and>
   f32_vec (vec (state_of [Fin False (7 / 2 ^ 77), Fin False 0, Fin False 0]) 1) \<and>
   norm3 (vec (state_of [Fin False (7 / 2 ^ 77), Fin False 0, Fin False 0]) 1) \<noteq> 0 \<and>
   fst (v3_length (state_of [Fin False (7 / 2 ^ 77), Fin False 0, Fin False 0]) 1) =
     Fin False (1 / 2 ^ 74) \<and>
   fst (v3_length (v3_normalize (state_of [Fin False (7 / 2 ^ 77), Fin False 0, Fin False 0]) 4 1) 4) =
     Fin False (7 / 8) \<and>
   \<not> near_one (fst (v3_length
       (v3_normalize (state_of [Fin False (7 / 2 ^ 77), Fin False 0, Fin False 0]) 4 1) 4))"
proof -
  let ?s = "state_of [Fin False (7 / 2 ^ 77), Fin False 0, Fin False 0]"
  have a: "finite3 (vec ?s 1)"
    by (simp only: vec_state_of3 finite3.simps isfinite.simps)
  have b: "f32_vec (vec ?s 1)"
    by (simp only: vec_state_of3 f32_vec.simps is_f32_vals)
  have c: "norm3 (vec ?s 1) \<noteq> 0"
    unfolding vec_state_of3 by simp
  have d: "fst (v3_length ?s 1) = Fin False (1 / 2 ^ 74)"
    by (simp only: v3_length_vec [OF addr_nz(1)] vec_state_of3 len_tiny fst_conv)
  have e: "fst (v3_length (v3_normalize ?s 4 1) 4) = Fin False (7 / 8)"
    by (simp only: v3_length_vec [OF addr_nz(2)] v3_normalize_vec [OF addr_nz(2,1)]
        vec_state_of3 norm_tiny len_seven_eighths fst_conv)
  have f: "\<not> near_one (fst (v3_length (v3_normalize ?s 4 1) 4))"
    unfolding e by (simp add: near_one_def)
  from a b c d e f show ?thesis by blast
qed





section \<open>Scaling by a power of two\<close>


























lemma reflect_diag:
  "reflect3 (Fin False 1, Fin False 0, Fin False 0) (Fin False 1, Fin False 1, Fin False 0) =
     (Fin False (1 / 2 ^ 24), Fin True (16777215 / 2 ^ 24), Fin False 0)"
  by (simp add: reflect3.simps normalize3.simps length3.simps dot3.simps fsub_def f32_eval)

lemma reflect_diag3:
  "reflect3 (Fin False 1, Fin False 0, Fin False 0) (Fin False 3, Fin False 3, Fin False 0) =
     (Fin True (1 / 2 ^ 23), Fin True (8388609 / 2 ^ 23), Fin False 0)"
  by (simp add: reflect3.simps normalize3.simps length3.simps dot3.simps fsub_def f32_eval)

lemma scale_three:
  "fmul (Fin False 1) (Fin False 3) = Fin False 3"
  "fmul (Fin False 0) (Fin False 3) = Fin False 0"
  by (simp_all add: f32_eval)

text \<open>
  A factor that is not a power of two changes the last bits even far from overflow: with
  \<open>v = (1, 0, 0)\<close> and \<open>n = (1, 1, 0)\<close> the reflection is \<open>(2^-24, -(1 - 2^-24), 0)\<close>, with
  \<open>3 * n\<close> it is \<open>(-2^-23, -(1 + 2^-23), 0)\<close>.
\<close>

lemma reflect_scale_rounding:
  "vec (v3_reflect (state_of [Fin False 1, Fin False 0, Fin False 0,
                              Fin False 1, Fin False 1, Fin False 0]) 10 7 1 4) 7 =
     (Fin False (1 / 2 ^ 24), Fin True (16777215 / 2 ^ 24), Fin False 0) \<and>
   vec (v3_reflect (v3_scale (state_of [Fin False 1, Fin False 0, Fin False 0,
                                        Fin False 1, Fin False 1, Fin False 0]) 4 (Fin False 3))
          10 7 1 4) 7 =
     (Fin True (1 / 2 ^ 23), Fin True (8388609 / 2 ^ 23), Fin False 0)"
proof -
  let ?s = "state_of [Fin False 1, Fin False 0, Fin False 0,
                      Fin False 1, Fin False 1, Fin False 0]"
  have dj: "disjoint 10 7" "disjoint 10 1" "disjoint 10 4" "disjoint 7 1" "disjoint 4 1"
    by (simp_all add: disjoint_def)
  have r: "vec (v3_reflect s 10 7 1 4) 7 = reflect3 (vec s 1) (vec s 4)" for s
    by (rule v3_reflect_vec [OF addr_nz(3,1,2,4) dj(1,2,3) disjI2 [OF dj(4)]])
  have n: "rd ?s 4 0 = Fin False 1" "rd ?s 4 (Suc 0) = Fin False 1" "rd ?s 4 2 = Fin False 0"
    by (simp_all add: rd_state_of)
  have v: "vec (v3_scale ?s 4 (Fin False 3)) 1 = vec ?s 1"
    by (rule v3_scale_other [OF dj(5)])
  have k: "vec (v3_scale ?s 4 (Fin False 3)) 4 = (Fin False 3, Fin False 3, Fin False 0)"
    by (simp only: v3_scale_vec [OF addr_nz(2)] n scale_three)
  have 1: "vec (v3_reflect ?s 10 7 1 4) 7 =
      (Fin False (1 / 2 ^ 24), Fin True (16777215 / 2 ^ 24), Fin False 0)"
    by (simp only: r vec_state_of3 vec_state_of6 reflect_diag)
  have 2: "vec (v3_reflect (v3_scale ?s 4 (Fin False 3)) 10 7 1 4) 7 =
      (Fin True (1 / 2 ^ 23), Fin True (8388609 / 2 ^ 23), Fin False 0)"
    by (simp only: r v k vec_state_of3 reflect_diag3)
  from 1 2 show ?thesis by blast
qed

end
